theory Spec2Isabelle
  imports Complex_Main "HOL-Library.Multiset" "HOL-Library.Monad_Syntax"
begin

section \<open>Python list primitives used by the queue\<close>

text \<open>
  Python normalises the bound of a slice \<open>xs[:i]\<close>, \<open>xs[i:]\<close> and the position of
  \<open>xs.insert(i, x)\<close> in the same way: a negative bound counts from the end and is then
  clamped to 0, a bound beyond the end is clamped to the length.
\<close>

definition py_bound :: "nat \<Rightarrow> int \<Rightarrow> nat" where
  "py_bound n i = (if i < 0 then nat (max 0 (i + int n)) else min (nat i) n)"

definition py_slice_to :: "'a list \<Rightarrow> int \<Rightarrow> 'a list" where
  \<comment> \<open>\<open>xs[:i]\<close>\<close>
  "py_slice_to xs i = take (py_bound (length xs) i) xs"

definition py_slice_from :: "'a list \<Rightarrow> int \<Rightarrow> 'a list" where
  \<comment> \<open>\<open>xs[i:]\<close>\<close>
  "py_slice_from xs i = drop (py_bound (length xs) i) xs"

definition py_insert :: "int \<Rightarrow> 'a \<Rightarrow> 'a list \<Rightarrow> 'a list" where
  \<comment> \<open>\<open>xs.insert(i, x)\<close>\<close>
  "py_insert i x xs = (let k = py_bound (length xs) i in take k xs @ x # drop k xs)"

definition py_pop :: "nat \<Rightarrow> 'a list \<Rightarrow> 'a \<times> 'a list" where
  \<comment> \<open>\<open>xs.pop(i)\<close> for \<open>0 \<le> i < len(xs)\<close>; every call in the source is behind that guard.\<close>
  "py_pop i xs = (xs ! i, take i xs @ drop (Suc i) xs)"

section \<open>Track (bot/music/track.py)\<close>

text \<open>The \<open>added_at\<close> timestamp is a point on the clock, counted in ticks.\<close>

record track =
  url :: string
  title :: string
  duration :: int
  thumbnail :: "string option"
  webpage_url :: "string option"
  stream_url :: "string option"
  source :: string
  requester_id :: "int option"
  requester_name :: string
  added_at :: int

text \<open>
  A serialised track is a Python dict from field names to values. The values that occur in
  the persisted form are strings, integers and \<open>None\<close>.
\<close>

datatype pyval = VStr string | VInt int | VNone

type_synonym pydict = "string \<rightharpoonup> pyval"

definition of_opt_str :: "string option \<Rightarrow> pyval" where
  "of_opt_str s = (case s of None \<Rightarrow> VNone | Some x \<Rightarrow> VStr x)"

definition of_opt_int :: "int option \<Rightarrow> pyval" where
  "of_opt_int i = (case i of None \<Rightarrow> VNone | Some x \<Rightarrow> VInt x)"

definition to_dict :: "track \<Rightarrow> pydict" where
  "to_dict t =
     [''url'' \<mapsto> VStr (url t),
      ''title'' \<mapsto> VStr (title t),
      ''duration'' \<mapsto> VInt (duration t),
      ''thumbnail'' \<mapsto> of_opt_str (thumbnail t),
      ''webpage_url'' \<mapsto> of_opt_str (webpage_url t),
      ''source'' \<mapsto> VStr (source t),
      ''requester_id'' \<mapsto> of_opt_int (requester_id t),
      ''requester_name'' \<mapsto> VStr (requester_name t)]"

definition dict_get :: "pydict \<Rightarrow> string \<Rightarrow> pyval \<Rightarrow> pyval" where
  \<comment> \<open>\<open>data.get(key, default)\<close>; \<open>data.get(key)\<close> is \<open>dict_get data key VNone\<close>\<close>
  "dict_get d k dflt = (case d k of None \<Rightarrow> dflt | Some v \<Rightarrow> v)"

text \<open>
  Python stores whatever value the dict holds. The record is typed as the dataclass is
  annotated, so a value of another type has no image here: the readers below return
  \<open>None\<close> for it, and \<open>from_dict\<close> is then \<open>None\<close> (a Track outside the model).
\<close>

definition as_str :: "pyval \<Rightarrow> string option" where
  "as_str v = (case v of VStr s \<Rightarrow> Some s | _ \<Rightarrow> None)"

definition as_int :: "pyval \<Rightarrow> int option" where
  "as_int v = (case v of VInt i \<Rightarrow> Some i | _ \<Rightarrow> None)"

definition as_opt_str :: "pyval \<Rightarrow> string option option" where
  "as_opt_str v = (case v of VStr s \<Rightarrow> Some (Some s) | VNone \<Rightarrow> Some None | _ \<Rightarrow> None)"

definition as_opt_int :: "pyval \<Rightarrow> int option option" where
  "as_opt_int v = (case v of VInt i \<Rightarrow> Some (Some i) | VNone \<Rightarrow> Some None | _ \<Rightarrow> None)"

text \<open>
  \<open>from_dict\<close> passes no \<open>stream_url\<close> and no \<open>added_at\<close> to the constructor, so the
  dataclass defaults apply: \<open>None\<close>, and \<open>datetime.now()\<close> read at the call, which is the
  first argument here.
\<close>

definition from_dict :: "int \<Rightarrow> pydict \<Rightarrow> track option" where
  "from_dict now d = do {
     u \<leftarrow> as_str (dict_get d ''url'' (VStr []));
     ti \<leftarrow> as_str (dict_get d ''title'' (VStr ''Unknown Title''));
     du \<leftarrow> as_int (dict_get d ''duration'' (VInt 0));
     th \<leftarrow> as_opt_str (dict_get d ''thumbnail'' VNone);
     wp \<leftarrow> as_opt_str (dict_get d ''webpage_url'' VNone);
     so \<leftarrow> as_str (dict_get d ''source'' (VStr ''unknown''));
     ri \<leftarrow> as_opt_int (dict_get d ''requester_id'' VNone);
     rn \<leftarrow> as_str (dict_get d ''requester_name'' (VStr ''Unknown''));
     Some \<lparr>url = u, title = ti, duration = du, thumbnail = th, webpage_url = wp,
           stream_url = None, source = so, requester_id = ri, requester_name = rn,
           added_at = now\<rparr>
   }"

text \<open>Three tracks for the concrete runs below.\<close>

definition trackA :: track where
  "trackA = \<lparr>url = ''https://example.com/a'', title = ''A'', duration = 180,
     thumbnail = None, webpage_url = None, stream_url = Some ''https://stream/a'',
     source = ''youtube'', requester_id = Some 123, requester_name = ''TestUser'',
     added_at = 0\<rparr>"

definition trackB :: track where
  "trackB = trackA\<lparr>url := ''https://example.com/b'', title := ''B'', duration := 200\<rparr>"

definition trackC :: track where
  "trackC = trackA\<lparr>url := ''https://example.com/c'', title := ''C'', duration := 300\<rparr>"

section \<open>MusicQueue (bot/music/queue.py)\<close>

datatype LoopMode = LOOP_OFF | LOOP_ONE | LOOP_ALL

datatype error = ValueError | ClientException

record queue =
  tracks :: "track list"
  current_index :: int
  loop_mode :: LoopMode
  max_size :: int
  history :: "track list"

definition init_queue :: "int \<Rightarrow> queue" where
  \<comment> \<open>\<open>MusicQueue.__init__(max_size)\<close>\<close>
  "init_queue m = \<lparr>tracks = [], current_index = 0, loop_mode = LOOP_OFF, max_size = m, history = []\<rparr>"

definition size_q :: "queue \<Rightarrow> int" where
  "size_q q = int (length (tracks q))"

definition is_empty :: "queue \<Rightarrow> bool" where
  "is_empty q = (length (tracks q) = 0)"

definition current :: "queue \<Rightarrow> track option" where
  "current q =
     (if 0 \<le> current_index q \<and> current_index q < int (length (tracks q))
      then Some (tracks q ! nat (current_index q)) else None)"

definition upcoming :: "queue \<Rightarrow> track list" where
  "upcoming q =
     (if current_index q + 1 < int (length (tracks q))
      then py_slice_from (tracks q) (current_index q + 1) else [])"

definition add :: "track \<Rightarrow> queue \<Rightarrow> bool \<times> queue" where
  "add t q =
     (if int (length (tracks q)) \<ge> max_size q then (False, q)
      else (True, q\<lparr>tracks := tracks q @ [t]\<rparr>))"

definition add_many :: "track list \<Rightarrow> queue \<Rightarrow> int \<times> queue" where
  "add_many ts q =
     (let available = max_size q - int (length (tracks q));
          to_add = py_slice_to ts available
      in (int (length to_add), q\<lparr>tracks := tracks q @ to_add\<rparr>))"

definition insert_q :: "int \<Rightarrow> track \<Rightarrow> queue \<Rightarrow> bool \<times> queue" where
  "insert_q index t q =
     (if int (length (tracks q)) \<ge> max_size q then (False, q)
      else
        let actual_index = max (current_index q + 1) (min index (int (length (tracks q))))
        in (True, q\<lparr>tracks := py_insert actual_index t (tracks q)\<rparr>))"

definition remove_q :: "int \<Rightarrow> queue \<Rightarrow> track option \<times> queue" where
  "remove_q index q =
     (if \<not> (0 \<le> index \<and> index < int (length (tracks q))) then (None, q)
      else
        let (t, rest) = py_pop (nat index) (tracks q);
            q1 = q\<lparr>tracks := rest\<rparr>;
            q2 = (if index < current_index q1
                  then q1\<lparr>current_index := current_index q1 - 1\<rparr>
                  else if index = current_index q1 \<and> current_index q1 \<ge> int (length (tracks q1))
                  then q1\<lparr>current_index := max 0 (int (length (tracks q1)) - 1)\<rparr>
                  else q1)
        in (Some t, q2))"

definition next_q :: "queue \<Rightarrow> track option \<times> queue" where
  "next_q q =
     (if is_empty q then (None, q)
      else
        let q1 = (case current q of
                    Some c \<Rightarrow>
                      (let h = history q @ [c]
                       in q\<lparr>history := (if length h > 50 then tl h else h)\<rparr>)
                  | None \<Rightarrow> q)
        in if loop_mode q1 = LOOP_ONE then (current q1, q1)
           else if current_index q1 + 1 < int (length (tracks q1))
           then (let q2 = q1\<lparr>current_index := current_index q1 + 1\<rparr> in (current q2, q2))
           else if loop_mode q1 = LOOP_ALL
           then (let q2 = q1\<lparr>current_index := 0\<rparr> in (current q2, q2))
           else (None, q1))"

text \<open>
  \<open>random.shuffle\<close> rearranges a list in place by a permutation of its positions that the
  random generator picks. The pick is the first argument of \<open>shuffle\<close>: position \<open>k\<close> of
  the shuffled list receives the element that was at position \<open>p ! k\<close>.
\<close>

definition is_perm_of_positions :: "nat list \<Rightarrow> nat \<Rightarrow> bool" where
  "is_perm_of_positions p n = (mset p = mset [0..<n])"

definition permute :: "nat list \<Rightarrow> 'a list \<Rightarrow> 'a list" where
  "permute p xs = map (\<lambda>i. xs ! i) p"

definition shuffle :: "nat list \<Rightarrow> queue \<Rightarrow> queue" where
  "shuffle p q =
     (if current_index q + 1 < int (length (tracks q))
      then
        let upcoming_tracks = permute p (py_slice_from (tracks q) (current_index q + 1))
        in q\<lparr>tracks := py_slice_to (tracks q) (current_index q + 1) @ upcoming_tracks\<rparr>
      else q)"

definition move :: "int \<Rightarrow> int \<Rightarrow> queue \<Rightarrow> bool \<times> queue" where
  "move from_index to_index q =
     (if \<not> (0 \<le> from_index \<and> from_index < int (length (tracks q)) \<and>
             0 \<le> to_index \<and> to_index < int (length (tracks q)))
      then (False, q)
      else
        let (t, rest) = py_pop (nat from_index) (tracks q);
            q1 = q\<lparr>tracks := py_insert to_index t rest\<rparr>;
            q2 = (if from_index = current_index q1 then q1\<lparr>current_index := to_index\<rparr>
                  else if from_index < current_index q1 \<and> current_index q1 \<le> to_index
                  then q1\<lparr>current_index := current_index q1 - 1\<rparr>
                  else if to_index \<le> current_index q1 \<and> current_index q1 < from_index
                  then q1\<lparr>current_index := current_index q1 + 1\<rparr>
                  else q1)
        in (True, q2))"

definition LoopMode_of :: "string \<Rightarrow> error + LoopMode" where
  \<comment> \<open>\<open>LoopMode(value)\<close>: the enum member with that value, or \<open>ValueError\<close>\<close>
  "LoopMode_of s =
     (if s = ''off'' then Inr LOOP_OFF
      else if s = ''one'' then Inr LOOP_ONE
      else if s = ''all'' then Inr LOOP_ALL
      else Inl ValueError)"

text \<open>
  \<open>restore_state\<close> assigns the tracks and the cursor before it converts the loop mode, so
  a \<open>ValueError\<close> leaves the queue with the new tracks and cursor and the old loop mode.
\<close>

definition restore_state :: "track list \<Rightarrow> int \<Rightarrow> string \<Rightarrow> queue \<Rightarrow> (error + unit) \<times> queue" where
  "restore_state ts ci lm q =
     (let q1 = q\<lparr>tracks := ts\<rparr>;
          q2 = q1\<lparr>current_index := min ci (max 0 (int (length ts) - 1))\<rparr>
      in case LoopMode_of lm of
           Inl e \<Rightarrow> (Inl e, q2)
         | Inr m \<Rightarrow> (Inr (), q2\<lparr>loop_mode := m\<rparr>))"

text \<open>\<open>n\<close> successive \<open>next()\<close> calls, with the values they return.\<close>

fun next_n :: "nat \<Rightarrow> queue \<Rightarrow> track option list \<times> queue" where
  "next_n 0 q = ([], q)"
| "next_n (Suc n) q =
     (let (r, q1) = next_q q; (rs, q2) = next_n n q1 in (r # rs, q2))"

text \<open>
  What \<open>pop(f)\<close> followed by \<open>insert(t, track)\<close> makes of a list, for positions in range.
\<close>

definition relocated :: "nat \<Rightarrow> nat \<Rightarrow> 'a list \<Rightarrow> 'a list" where
  "relocated f t xs =
     take t (take f xs @ drop (Suc f) xs) @ xs ! f # drop t (take f xs @ drop (Suc f) xs)"

text \<open>A queue of three tracks with the cursor on the second, for the concrete runs.\<close>

definition queue3 :: queue where
  "queue3 = \<lparr>tracks = [trackA, trackB, trackC], current_index = 1, loop_mode = LOOP_OFF,
              max_size = 500, history = []\<rparr>"

text \<open>A finite sequence of \<open>add\<close>, \<open>remove\<close> and \<open>insert\<close> calls on one queue.\<close>

datatype queue_op = Add track | Remove int | Insert int track

fun apply_op :: "queue \<Rightarrow> queue_op \<Rightarrow> queue" where
  "apply_op q (Add t) = snd (add t q)"
| "apply_op q (Remove i) = snd (remove_q i q)"
| "apply_op q (Insert i t) = snd (insert_q i t q)"

definition run_ops :: "queue \<Rightarrow> queue_op list \<Rightarrow> queue" where
  "run_ops q ops = foldl apply_op q ops"

section \<open>MusicPlayer.seek (bot/music/player.py)\<close>

text \<open>
  The voice connection and the audio sources belong to the chat platform's library, and the
  stream lookup runs an external tool; the player reaches them through the calls below,
  which are parameters here. \<open>make_source\<close> stands for building the FFmpeg source from
  the stream URL, \<open>before_options\<close> and \<open>options\<close> and wrapping it in a volume
  transformer; it and \<open>vc_play\<close> may raise, \<open>vc_stop\<close> does not.
\<close>

record ('vc, 'src) transport =
  vc_stop :: "'vc \<Rightarrow> 'vc"
  make_source :: "string \<Rightarrow> string \<Rightarrow> string \<Rightarrow> rat \<Rightarrow> error + 'src"
  vc_play :: "'src \<Rightarrow> 'vc \<Rightarrow> error + 'vc"

record 'vc player =
  guild_id :: int
  pqueue :: queue
  voice_client :: "'vc option"
  volume :: rat
  is_playing :: bool
  current_position :: int
  paused :: bool
  last_activity :: int

definition FFMPEG_before_options :: string where
  "FFMPEG_before_options = ''-reconnect 1 -reconnect_streamed 1 -reconnect_delay_max 5''"

definition FFMPEG_options :: string where
  "FFMPEG_options = ''-vn''"

fun digits :: "nat \<Rightarrow> string" where
  "digits n =
     (if n < 10 then [char_of (48 + n)]
      else digits (n div 10) @ [char_of (48 + n mod 10)])"

definition str_of_int :: "int \<Rightarrow> string" where
  \<comment> \<open>the decimal text an f-string gives an integer\<close>
  "str_of_int i = (if i < 0 then CHR ''-'' # digits (nat (- i)) else digits (nat i))"

text \<open>
  \<open>seek\<close> returns its boolean and the player it leaves behind. The \<open>try\<close> block turns
  every exception into \<open>False\<close>, keeping what was done before the raise. The lookup
  \<open>get_stream_url\<close> answers \<open>None\<close> on failure; an empty URL is falsy as well.
\<close>

definition seek ::
  "('vc, 'src) transport \<Rightarrow> (track \<Rightarrow> string option) \<Rightarrow> int \<Rightarrow> 'vc player \<Rightarrow> bool \<times> 'vc player"
where
  "seek tr get_stream_url seconds p =
     (case current (pqueue p) of
        None \<Rightarrow> (False, p)
      | Some t \<Rightarrow>
          (case voice_client p of
             None \<Rightarrow> (False, p)
           | Some vc \<Rightarrow>
               if seconds < 0 \<or> (duration t > 0 \<and> seconds \<ge> duration t) then (False, p)
               else
                 (case get_stream_url t of
                    None \<Rightarrow> (False, p)
                  | Some stream \<Rightarrow>
                      if stream = [] then (False, p)
                      else
                        let vc1 = vc_stop tr vc;
                            p1 = p\<lparr>voice_client := Some vc1\<rparr>;
                            before_options = ''-ss '' @ str_of_int seconds @ '' '' @ FFMPEG_before_options
                        in (case make_source tr stream before_options FFMPEG_options (volume p1) of
                              Inl e \<Rightarrow> (False, p1)
                            | Inr src \<Rightarrow>
                                (case vc_play tr src vc1 of
                                   Inl e \<Rightarrow> (False, p1)
                                 | Inr vc2 \<Rightarrow>
                                     (True, p1\<lparr>voice_client := Some vc2,
                                               current_position := seconds\<rparr>))))))"

text \<open>
  A transport for the concrete runs: the connection is the source it plays, if any, and a
  source is its stream URL with the seek options.
\<close>

definition sim_transport :: "((string \<times> string) option, string \<times> string) transport" where
  "sim_transport =
     \<lparr>vc_stop = (\<lambda>vc. None),
      make_source = (\<lambda>stream before opts vol. Inr (stream, before)),
      vc_play = (\<lambda>src vc. case vc of None \<Rightarrow> Inr (Some src) | Some _ \<Rightarrow> Inl ClientException)\<rparr>"

definition sim_player :: "(string \<times> string) option player" where
  "sim_player =
     \<lparr>guild_id = 1,
      pqueue = queue3,
      voice_client = Some (Some (''https://stream/b'', FFMPEG_before_options)),
      volume = 1, is_playing = True, current_position = 42, paused = False,
      last_activity = 0\<rparr>"

text \<open>The cursor invariant, with the cursor at 0 on the empty queue.\<close>

definition cursor_ok :: "queue \<Rightarrow> bool" where
  "cursor_ok q = (0 \<le> current_index q \<and> current_index q < max 1 (int (length (tracks q))))"

section \<open>Properties\<close>

lemma length_py_insert: "length (py_insert i x xs) = Suc (length xs)"
  by (simp add: py_insert_def py_bound_def Let_def)

lemma cursor_ok_init: "cursor_ok (init_queue m)"
  by (simp add: cursor_ok_def init_queue_def)

lemma cursor_ok_add: "cursor_ok q \<Longrightarrow> cursor_ok (snd (add t q))"
  by (auto simp: cursor_ok_def add_def)

lemma cursor_ok_insert: "cursor_ok q \<Longrightarrow> cursor_ok (snd (insert_q i t q))"
  by (auto simp: cursor_ok_def insert_q_def Let_def length_py_insert)

lemma cursor_ok_remove: "cursor_ok q \<Longrightarrow> cursor_ok (snd (remove_q i q))"
  by (auto simp: cursor_ok_def remove_q_def py_pop_def Let_def)

lemma cursor_ok_apply_op: "cursor_ok q \<Longrightarrow> cursor_ok (apply_op q x)"
  by (cases x) (simp_all add: cursor_ok_add cursor_ok_insert cursor_ok_remove)

lemma cursor_ok_run_ops: "cursor_ok q \<Longrightarrow> cursor_ok (run_ops q ops)"
  unfolding run_ops_def
  by (induction ops arbitrary: q) (simp_all add: cursor_ok_apply_op)

text \<open>
  C1: starting from the empty queue, after any finite sequence of add, remove and insert
  operations the cursor satisfies \<open>0 \<le> current_index < size\<close> whenever the queue is not
  empty, and the empty queue has no current track.
\<close>

theorem cursor_invariant_after_ops:
  "(size_q (run_ops (init_queue m) ops) > 0 \<longrightarrow>
      0 \<le> current_index (run_ops (init_queue m) ops) \<and>
      current_index (run_ops (init_queue m) ops) < size_q (run_ops (init_queue m) ops)) \<and>
   (size_q (run_ops (init_queue m) ops) = 0 \<longrightarrow> current (run_ops (init_queue m) ops) = None)"
proof -
  define q where "q = run_ops (init_queue m) ops"
  have "cursor_ok q"
    unfolding q_def by (rule cursor_ok_run_ops [OF cursor_ok_init])
  then have "0 \<le> current_index q" and "current_index q < max 1 (int (length (tracks q)))"
    by (simp_all add: cursor_ok_def)
  then have "(size_q q > 0 \<longrightarrow> 0 \<le> current_index q \<and> current_index q < size_q q) \<and>
             (size_q q = 0 \<longrightarrow> current q = None)"
    by (cases "tracks q") (simp_all add: size_q_def current_def)
  then show ?thesis
    unfolding q_def .
qed

theorem cursor_invariant_after_ops_witness:
  "0 < size_q (run_ops (init_queue 500) [Add trackA, Add trackB, Insert 0 trackC, Remove 0]) \<and>
   0 \<le> current_index (run_ops (init_queue 500) [Add trackA, Add trackB, Insert 0 trackC, Remove 0]) \<and>
   current_index (run_ops (init_queue 500) [Add trackA, Add trackB, Insert 0 trackC, Remove 0])
     < size_q (run_ops (init_queue 500) [Add trackA, Add trackB, Insert 0 trackC, Remove 0]) \<and>
   size_q (run_ops (init_queue 500) []) = 0 \<and>
   current (run_ops (init_queue 500) []) = None"
proof -
  have nonempty:
    "0 < size_q (run_ops (init_queue 500) [Add trackA, Add trackB, Insert 0 trackC, Remove 0])"
    by (simp add: size_q_def run_ops_def init_queue_def add_def insert_q_def remove_q_def
        py_insert_def py_bound_def py_pop_def Let_def)
  have empty: "size_q (run_ops (init_queue 500) []) = 0"
    by (simp add: size_q_def run_ops_def init_queue_def)
  show ?thesis
    using nonempty empty
      cursor_invariant_after_ops [of 500 "[Add trackA, Add trackB, Insert 0 trackC, Remove 0]"]
      cursor_invariant_after_ops [of 500 "[]"]
    by blast
qed

subsection \<open>remove\<close>

lemma list_of_length_3: "length xs = 3 \<Longrightarrow> xs = [xs ! 0, xs ! 1, xs ! 2]"
  by (auto simp: numeral_3_eq_3 length_Suc_conv)

lemma remove_q_valid:
  assumes "0 \<le> i" and "i < size_q q"
  shows "fst (remove_q i q) = Some (tracks q ! nat i)"
    and "tracks (snd (remove_q i q)) = take (nat i) (tracks q) @ drop (Suc (nat i)) (tracks q)"
    and "i < current_index q \<Longrightarrow> current_index (snd (remove_q i q)) = current_index q - 1"
    and "current_index q < i \<Longrightarrow> current_index (snd (remove_q i q)) = current_index q"
    and "i = current_index q \<Longrightarrow> size_q (snd (remove_q i q)) = 0 \<Longrightarrow>
           current (snd (remove_q i q)) = None"
    and "i = current_index q \<Longrightarrow> size_q (snd (remove_q i q)) \<noteq> 0 \<Longrightarrow>
           current_index (snd (remove_q i q)) =
             min (current_index q) (size_q (snd (remove_q i q)) - 1)"
  using assms
  by (auto simp: remove_q_def py_pop_def size_q_def current_def Let_def)

lemma remove_q_first_of_three:
  assumes "size_q q = 3" and "current_index q = 1"
  shows "current_index (snd (remove_q 0 q)) = 0 \<and>
         tracks (snd (remove_q 0 q)) = [tracks q ! 1, tracks q ! 2] \<and>
         current (snd (remove_q 0 q)) = Some (tracks q ! 1)"
proof -
  from assms have len: "length (tracks q) = 3"
    by (simp add: size_q_def)
  from list_of_length_3 [OF len] obtain a b c where abc: "tracks q = [a, b, c]"
    by blast
  show ?thesis
    using assms abc by (simp add: remove_q_def py_pop_def size_q_def current_def Let_def)
qed

text \<open>
  C2: for a valid index \<open>i\<close>, \<open>remove(i)\<close> returns the track that was at \<open>i\<close> and takes
  exactly that position out of the list. If \<open>i\<close> is below the cursor the cursor moves down
  by one; if \<open>i\<close> is the cursor, the cursor is clamped to the new last valid index, and
  when the queue has become empty there is no current track. On a queue of size 3 with the
  cursor at 1, \<open>remove(0)\<close> leaves the cursor at 0 on the original second track, and the
  remaining tracks are the original second and third.
\<close>

theorem remove_returns_track_and_rehomes_cursor:
  assumes "0 \<le> i" and "i < size_q q"
  shows "fst (remove_q i q) = Some (tracks q ! nat i) \<and>
         tracks (snd (remove_q i q)) = take (nat i) (tracks q) @ drop (Suc (nat i)) (tracks q) \<and>
         (i < current_index q \<longrightarrow>
            current_index (snd (remove_q i q)) = current_index q - 1) \<and>
         (i = current_index q \<longrightarrow>
            (if size_q (snd (remove_q i q)) = 0 then current (snd (remove_q i q)) = None
             else current_index (snd (remove_q i q)) =
                    min (current_index q) (size_q (snd (remove_q i q)) - 1))) \<and>
         (size_q q = 3 \<and> current_index q = 1 \<and> i = 0 \<longrightarrow>
            current_index (snd (remove_q i q)) = 0 \<and>
            tracks (snd (remove_q i q)) = [tracks q ! 1, tracks q ! 2] \<and>
            current (snd (remove_q i q)) = Some (tracks q ! 1))"
  using remove_q_valid [OF assms] remove_q_first_of_three [of q]
  by simp

theorem remove_returns_track_and_rehomes_cursor_witness:
  "(0::int) \<le> 0 \<and> 0 < size_q queue3 \<and> size_q queue3 = 3 \<and> current_index queue3 = 1 \<and>
   fst (remove_q 0 queue3) = Some trackA \<and>
   current_index (snd (remove_q 0 queue3)) = 0 \<and>
   tracks (snd (remove_q 0 queue3)) = [trackB, trackC] \<and>
   current (snd (remove_q 0 queue3)) = Some trackB \<and>
   1 < size_q queue3 \<and>
   fst (remove_q 1 queue3) = Some trackB \<and>
   current_index (snd (remove_q 1 queue3)) = 1"
proof -
  have h: "(0::int) \<le> 0" "0 < size_q queue3" "(0::int) \<le> 1" "1 < size_q queue3"
    "size_q queue3 = 3" "current_index queue3 = 1"
    by (simp_all add: queue3_def size_q_def)
  have t: "tracks queue3 = [trackA, trackB, trackC]"
    by (simp add: queue3_def)
  have s1: "size_q (snd (remove_q 1 queue3)) = 2"
    by (simp add: queue3_def remove_q_def py_pop_def size_q_def Let_def)
  show ?thesis
    using h t s1
      remove_returns_track_and_rehomes_cursor [OF h(1) h(2)]
      remove_returns_track_and_rehomes_cursor [OF h(3) h(4)]
    by simp
qed

subsection \<open>move\<close>

lemma nth_removed:
  "i < length xs \<Longrightarrow> j < length xs - 1 \<Longrightarrow>
   (take i xs @ drop (Suc i) xs) ! j = (if j < i then xs ! j else xs ! Suc j)"
  by (auto simp: nth_append min_def)

lemma nth_inserted:
  assumes "k \<le> length ys" and "j \<le> length ys"
  shows "(take k ys @ x # drop k ys) ! j =
           (if j < k then ys ! j else if j = k then x else ys ! (j - 1))"
proof -
  consider "j < k" | "j = k" | "k < j" by linarith
  then show ?thesis
  proof cases
    case 1
    with assms show ?thesis by (simp add: nth_append)
  next
    case 2
    with assms show ?thesis by (simp add: nth_append)
  next
    case 3
    from less_imp_Suc_add [OF 3] obtain d where d: "j = Suc (k + d)" ..
    have lk: "length (take k ys) = k"
      using assms(1) by simp
    have "(take k ys @ x # drop k ys) ! (length (take k ys) + Suc d) = (x # drop k ys) ! Suc d"
      by (rule nth_append_length_plus)
    also have "\<dots> = ys ! (k + d)"
      using assms(1) by simp
    finally have "(take k ys @ x # drop k ys) ! Suc (k + d) = ys ! (Suc (k + d) - 1)"
      by (simp only: lk add_Suc_right diff_Suc_1)
    then show ?thesis
      unfolding d by simp
  qed
qed

lemma nth_relocate:
  assumes f: "f < length xs" and t: "t < length xs" and c: "c < length xs"
  defines "ys \<equiv> take f xs @ drop (Suc f) xs"
  defines "zs \<equiv> take t ys @ xs ! f # drop t ys"
  shows "zs ! (if f = c then t else if f < c \<and> c \<le> t then c - 1
               else if t \<le> c \<and> c < f then c + 1 else c) = xs ! c"
proof -
  have len: "length ys = length xs - 1"
    using f by (auto simp: ys_def)
  have R: "ys ! j = (if j < f then xs ! j else xs ! Suc j)" if "j < length xs - 1" for j
    unfolding ys_def using f that by (rule nth_removed)
  have tl: "t \<le> length ys" using t len by simp
  have I: "zs ! j = (if j < t then ys ! j else if j = t then xs ! f else ys ! (j - 1))"
    if "j \<le> length ys" for j
    unfolding zs_def using tl that by (rule nth_inserted)
  consider (cur) "f = c" | (down) "f < c" "c \<le> t" | (up) "t \<le> c" "c < f"
    | (below) "c < f" "c < t" | (above) "f < c" "t < c"
    by linarith
  then show ?thesis
  proof cases
    case cur
    have "zs ! t = xs ! f" using I [OF tl] by simp
    with cur show ?thesis by simp
  next
    case down
    have j: "c - 1 \<le> length ys" "c - 1 < t" "c - 1 < length xs - 1" "\<not> c - 1 < f" "Suc (c - 1) = c"
      using down c len by simp_all
    have "zs ! (c - 1) = ys ! (c - 1)" using I [OF j(1)] j(2) by simp
    also have "\<dots> = xs ! c" using R [OF j(3)] j(4) j(5) by simp
    finally show ?thesis using down by simp
  next
    case up
    have j: "c + 1 \<le> length ys" "\<not> c + 1 < t" "c + 1 \<noteq> t" "c < length xs - 1" "c < f"
      using up f len by simp_all
    have "zs ! (c + 1) = ys ! c" using I [OF j(1)] j(2) j(3) by simp
    also have "\<dots> = xs ! c" using R [OF j(4)] j(5) by simp
    finally show ?thesis using up by simp
  next
    case below
    have j: "c \<le> length ys" "c < length xs - 1" using below f len by simp_all
    have "zs ! c = ys ! c" using I [OF j(1)] below by simp
    also have "\<dots> = xs ! c" using R [OF j(2)] below by simp
    finally show ?thesis using below by simp
  next
    case above
    have j: "c \<le> length ys" "\<not> c < t" "c \<noteq> t" "c - 1 < length xs - 1" "\<not> c - 1 < f" "Suc (c - 1) = c"
      using above c len by simp_all
    have "zs ! c = ys ! (c - 1)" using I [OF j(1)] j(2) j(3) by simp
    also have "\<dots> = xs ! c" using R [OF j(4)] j(5) j(6) by simp
    finally show ?thesis using above by simp
  qed
qed


lemma length_relocated: "f < length xs \<Longrightarrow> t < length xs \<Longrightarrow> length (relocated f t xs) = length xs"
  by (auto simp: relocated_def)

lemma mset_relocated: "f < length xs \<Longrightarrow> mset (relocated f t xs) = mset xs"
proof -
  assume f: "f < length xs"
  define ys where "ys = take f xs @ drop (Suc f) xs"
  have "mset (relocated f t xs) = mset (take t ys @ drop t ys) + {#xs ! f#}"
    unfolding relocated_def ys_def by (simp only: mset_append mset.simps) simp
  also have "\<dots> = mset ys + {#xs ! f#}" by simp
  also have "\<dots> = mset (take f xs @ xs ! f # drop (Suc f) xs)"
    unfolding ys_def by simp
  also have "\<dots> = mset xs"
    by (rule arg_cong [OF id_take_nth_drop [OF f], symmetric])
  finally show ?thesis .
qed

lemma py_insert_in_range:
  "0 \<le> i \<Longrightarrow> nat i \<le> length xs \<Longrightarrow> py_insert i x xs = take (nat i) xs @ x # drop (nat i) xs"
  by (simp add: py_insert_def py_bound_def Let_def)

lemma move_unfold:
  assumes "0 \<le> f" "f < size_q q" "0 \<le> t" "t < size_q q"
  shows "move f t q =
     (True, (if f = current_index q then q\<lparr>tracks := relocated (nat f) (nat t) (tracks q), current_index := t\<rparr>
            else if f < current_index q \<and> current_index q \<le> t
              then q\<lparr>tracks := relocated (nat f) (nat t) (tracks q), current_index := current_index q - 1\<rparr>
            else if t \<le> current_index q \<and> current_index q < f
              then q\<lparr>tracks := relocated (nat f) (nat t) (tracks q), current_index := current_index q + 1\<rparr>
            else q\<lparr>tracks := relocated (nat f) (nat t) (tracks q)\<rparr>))"
proof -
  have guard: "0 \<le> f \<and> f < int (length (tracks q)) \<and> 0 \<le> t \<and> t < int (length (tracks q))"
    using assms by (simp add: size_q_def)
  have len: "length (take (nat f) (tracks q) @ drop (Suc (nat f)) (tracks q)) = length (tracks q) - 1"
    using guard by auto
  have ins: "py_insert t x (take (nat f) (tracks q) @ drop (Suc (nat f)) (tracks q)) =
             take (nat t) (take (nat f) (tracks q) @ drop (Suc (nat f)) (tracks q)) @ x #
             drop (nat t) (take (nat f) (tracks q) @ drop (Suc (nat f)) (tracks q))" for x
    using guard by (intro py_insert_in_range) (simp_all only: len, linarith+)
  show ?thesis
    unfolding move_def py_pop_def Let_def prod.case relocated_def ins
    using guard by simp
qed


lemma remove_inserted:
  "t \<le> length ys \<Longrightarrow> take t (take t ys @ x # drop t ys) @ drop (Suc t) (take t ys @ x # drop t ys) = ys"
  by simp

lemma relocated_nth_to:
  "f < length xs \<Longrightarrow> t < length xs \<Longrightarrow> relocated f t xs ! t = xs ! f"
  using nth_relocate [of f xs t f] by (simp add: relocated_def)

lemma relocated_rest:
  assumes "f < length xs" "t < length xs"
  shows "take t (relocated f t xs) @ drop (Suc t) (relocated f t xs) = take f xs @ drop (Suc f) xs"
proof -
  have "t \<le> length (take f xs @ drop (Suc f) xs)"
    using assms by auto
  then show ?thesis
    unfolding relocated_def by (rule remove_inserted)
qed

lemma relocated_cursor:
  assumes f: "0 \<le> f" "f < int (length xs)" and t: "0 \<le> t" "t < int (length xs)"
    and c: "0 \<le> c" "c < int (length xs)"
  defines "c' \<equiv> (if f = c then t else if f < c \<and> c \<le> t then c - 1
                   else if t \<le> c \<and> c < f then c + 1 else c)"
  shows "0 \<le> c' \<and> c' < int (length xs) \<and> relocated (nat f) (nat t) xs ! nat c' = xs ! nat c"
proof -
  have key: "relocated (nat f) (nat t) xs !
               (if nat f = nat c then nat t else if nat f < nat c \<and> nat c \<le> nat t then nat c - 1
                else if nat t \<le> nat c \<and> nat c < nat f then nat c + 1 else nat c) = xs ! nat c"
    unfolding relocated_def using f t c by (intro nth_relocate) simp_all
  have n: "nat c' = (if nat f = nat c then nat t else if nat f < nat c \<and> nat c \<le> nat t then nat c - 1
                else if nat t \<le> nat c \<and> nat c < nat f then nat c + 1 else nat c)"
  proof -
    have e: "nat f = nat c \<longleftrightarrow> f = c" "nat f < nat c \<longleftrightarrow> f < c" "nat c \<le> nat t \<longleftrightarrow> c \<le> t"
      "nat t \<le> nat c \<longleftrightarrow> t \<le> c" "nat c < nat f \<longleftrightarrow> c < f"
      using f t c by linarith+
    have d: "nat (c - 1) = nat c - 1" "nat (c + 1) = nat c + 1"
      using c by linarith+
    show ?thesis
      unfolding c'_def e by (simp only: d if_distrib [of nat])
  qed
  have r: "0 \<le> c' \<and> c' < int (length xs)"
    using f t c unfolding c'_def by simp
  show ?thesis
    using key r by (simp only: n)
qed


text \<open>
  C7: for valid positions \<open>from\<close> and \<open>to\<close>, \<open>move(from, to)\<close> returns true, puts the track
  that was at \<open>from\<close> at \<open>to\<close> and leaves the other tracks in their order, and the track under
  the cursor afterwards is the track that was under the cursor before, whichever of the
  three adjustments applied.
\<close>

theorem move_relocates_and_keeps_current:
  assumes "0 \<le> f" and "f < size_q q" and "0 \<le> t" and "t < size_q q"
  shows "fst (move f t q) = True \<and>
         tracks (snd (move f t q)) ! nat t = tracks q ! nat f \<and>
         take (nat t) (tracks (snd (move f t q))) @ drop (Suc (nat t)) (tracks (snd (move f t q))) =
           take (nat f) (tracks q) @ drop (Suc (nat f)) (tracks q) \<and>
         size_q (snd (move f t q)) = size_q q \<and>
         mset (tracks (snd (move f t q))) = mset (tracks q) \<and>
         loop_mode (snd (move f t q)) = loop_mode q \<and>
         current (snd (move f t q)) = current q"
proof -
  define xs where "xs = tracks q"
  define c where "c = current_index q"
  define c' where "c' = (if f = c then t else if f < c \<and> c \<le> t then c - 1
                         else if t \<le> c \<and> c < f then c + 1 else c)"
  have fn: "nat f < length xs" and tn: "nat t < length xs"
    and fi: "f < int (length xs)" and ti: "t < int (length xs)"
    using assms by (simp_all add: size_q_def xs_def)
  note m = move_unfold [OF assms]
  have r: "fst (move f t q) = True"
    unfolding m by simp
  have tr: "tracks (snd (move f t q)) = relocated (nat f) (nat t) xs"
    unfolding m xs_def by simp
  have ci: "current_index (snd (move f t q)) = c'"
    unfolding m c'_def c_def by simp
  have lm: "loop_mode (snd (move f t q)) = loop_mode q"
    unfolding m by simp
  have len: "length (relocated (nat f) (nat t) xs) = length xs"
    using fn tn by (rule length_relocated)
  have cur: "current (snd (move f t q)) = current q"
  proof (cases "0 \<le> c \<and> c < int (length xs)")
    case True
    then have "0 \<le> c' \<and> c' < int (length xs) \<and> relocated (nat f) (nat t) xs ! nat c' = xs ! nat c"
      unfolding c'_def using assms(1) fi assms(3) ti by (intro relocated_cursor) simp_all
    with True show ?thesis
      by (simp add: current_def tr ci len xs_def [symmetric] c_def [symmetric])
  next
    case False
    then have "c' = c" and "\<not> (0 \<le> c' \<and> c' < int (length xs))"
      using assms(1) fi assms(3) ti by (auto simp: c'_def)
    with False show ?thesis
      by (auto simp: current_def tr ci len xs_def [symmetric] c_def [symmetric])
  qed
  show ?thesis
    using r lm cur relocated_nth_to [OF fn tn] relocated_rest [OF fn tn] mset_relocated [OF fn, of "nat t"] len
    by (simp add: tr size_q_def xs_def [symmetric])
qed

theorem move_relocates_and_keeps_current_witness:
  "(0::int) \<le> 0 \<and> 0 < size_q queue3 \<and> (0::int) \<le> 2 \<and> 2 < size_q queue3 \<and>
   fst (move 0 2 queue3) = True \<and>
   tracks (snd (move 0 2 queue3)) ! nat 2 = trackA \<and>
   current (snd (move 0 2 queue3)) = Some trackB"
proof -
  have h: "(0::int) \<le> 0" "0 < size_q queue3" "(0::int) \<le> 2" "2 < size_q queue3"
    by (simp_all add: queue3_def size_q_def)
  have c: "current queue3 = Some trackB" "tracks queue3 ! nat 0 = trackA"
    by (simp_all add: queue3_def current_def)
  show ?thesis
    using h c move_relocates_and_keeps_current [OF h] by simp
qed

subsection \<open>restore_state\<close>

lemma restore_state_installs:
  "tracks (snd (restore_state ts ci lm q)) = ts"
  "current_index (snd (restore_state ts ci lm q)) = min ci (max 0 (int (length ts) - 1))"
  "max_size (snd (restore_state ts ci lm q)) = max_size q"
  by (simp_all add: restore_state_def Let_def split: sum.splits)

text \<open>For a cursor that is not negative the clamp is enough.\<close>

lemma restore_state_cursor_ok:
  "0 \<le> ci \<Longrightarrow> cursor_ok (snd (restore_state ts ci lm q))"
  by (auto simp: restore_state_installs cursor_ok_def)

text \<open>
  C3: \<open>restore_state\<close> is to clamp \<open>current_index\<close> into the bounds of the track list for
  every integer, negative ones included. The clamp is \<open>min\<close> against the last index only:
  restoring one track with the cursor \<open>-1\<close> installs the track and leaves the cursor at
  \<open>-1\<close>, so the restored, non-empty queue has no current track.
\<close>

theorem restore_state_keeps_negative_cursor:
  "tracks (snd (restore_state [trackA] (- 1) ''off'' (init_queue 500))) = [trackA] \<and>
   current_index (snd (restore_state [trackA] (- 1) ''off'' (init_queue 500))) = - 1 \<and>
   current (snd (restore_state [trackA] (- 1) ''off'' (init_queue 500))) = None"
  by (simp add: restore_state_def LoopMode_of_def init_queue_def current_def Let_def)

text \<open>
  C6: \<open>restore_state\<close> installs the given list whole and does not look at \<open>max_size\<close>, so
  a list longer than \<open>max_size\<close> leaves the queue above its capacity.
\<close>

theorem restore_state_exceeds_max_size:
  "max_size q < int (length ts) \<Longrightarrow>
   tracks (snd (restore_state ts ci lm q)) = ts \<and>
   max_size (snd (restore_state ts ci lm q)) < size_q (snd (restore_state ts ci lm q))"
  by (simp add: restore_state_installs size_q_def)

theorem restore_state_exceeds_max_size_witness:
  "max_size (init_queue 1) < int (length [trackA, trackB]) \<and>
   tracks (snd (restore_state [trackA, trackB] 0 ''off'' (init_queue 1))) = [trackA, trackB] \<and>
   max_size (snd (restore_state [trackA, trackB] 0 ''off'' (init_queue 1)))
     < size_q (snd (restore_state [trackA, trackB] 0 ''off'' (init_queue 1)))"
proof -
  have h: "max_size (init_queue 1) < int (length [trackA, trackB])"
    by (simp add: init_queue_def)
  show ?thesis
    using h restore_state_exceeds_max_size [OF h, of 0 "''off''"] by simp
qed

subsection \<open>Track serialisation\<close>

lemmas dict_readers =
  dict_get_def as_str_def as_int_def as_opt_str_def as_opt_int_def of_opt_str_def of_opt_int_def

text \<open>
  C4 as stated: \<open>from_dict(to_dict(t))\<close> reproduces every field but the stream URL. The
  \<open>added_at\<close> timestamp is a field as well, it is not written to the dict, and the rebuilt
  track takes the clock reading of the rebuild: a track created at tick 0 and rebuilt at
  tick 1 comes back with \<open>added_at = 1\<close>.
\<close>

theorem from_dict_to_dict_added_at_differs:
  "map_option added_at (from_dict 1 (to_dict trackA)) \<noteq> Some (added_at trackA)"
  by (simp add: to_dict_def from_dict_def dict_readers trackA_def)

text \<open>
  C4, amended: the dict made by \<open>to_dict\<close> has no stream URL entry, and
  \<open>from_dict(to_dict(t))\<close> reproduces every field of the track except the stream URL,
  which is \<open>None\<close>, and \<open>added_at\<close>, which is the time of the rebuild.
\<close>

theorem from_dict_to_dict_roundtrip:
  "''stream_url'' \<notin> dom (to_dict t) \<and>
   from_dict now (to_dict t) = Some (t\<lparr>stream_url := None, added_at := now\<rparr>)"
  by (cases t) (simp add: to_dict_def from_dict_def dict_readers split: option.splits)

subsection \<open>Capacity\<close>

lemma add_at_capacity: "max_size q \<le> size_q q \<Longrightarrow> add t q = (False, q)"
  by (simp add: add_def size_q_def)

lemma add_below_capacity:
  "size_q q < max_size q \<Longrightarrow> add t q = (True, q\<lparr>tracks := tracks q @ [t]\<rparr>)"
  by (simp add: add_def size_q_def)

text \<open>
  With room for \<open>k \<ge> 0\<close> more tracks, \<open>add_many\<close> appends the first \<open>k\<close> tracks of the batch
  (all of it when it is shorter) and returns how many those are.
\<close>

lemma add_many_with_room:
  "0 \<le> max_size q - size_q q \<Longrightarrow>
   add_many ts q =
     (min (max_size q - size_q q) (int (length ts)),
      q\<lparr>tracks := tracks q @ take (nat (max_size q - size_q q)) ts\<rparr>)"
  by (auto simp add: add_many_def size_q_def py_slice_to_def py_bound_def Let_def min_def)

lemma add_many_exactly_full: "size_q q = max_size q \<Longrightarrow> add_many ts q = (0, q)"
  by (simp add: add_many_def size_q_def py_slice_to_def py_bound_def Let_def)

text \<open>
  C5: a queue that holds at least \<open>max_size\<close> tracks is to take nothing from \<open>add_many\<close>.
  \<open>add\<close> refuses then, but \<open>add_many\<close> slices the batch at \<open>max_size - size\<close>, and a
  negative bound of a Python slice counts from the end of the batch. A queue of capacity 1
  that a restore has filled with two tracks takes one more track out of a batch of two and
  reports 1.
\<close>

theorem add_many_above_capacity_appends:
  "size_q (snd (restore_state [trackA, trackB] 0 ''off'' (init_queue 1))) = 2 \<and>
   max_size (snd (restore_state [trackA, trackB] 0 ''off'' (init_queue 1))) = 1 \<and>
   add_many [trackC, trackC] (snd (restore_state [trackA, trackB] 0 ''off'' (init_queue 1))) =
     (1, \<lparr>tracks = [trackA, trackB, trackC], current_index = 0, loop_mode = LOOP_OFF,
          max_size = 1, history = []\<rparr>)"
  by (simp add: add_many_def restore_state_def LoopMode_of_def init_queue_def size_q_def
      py_slice_to_def py_bound_def Let_def)

subsection \<open>seek\<close>

text \<open>
  C10: with a current track, \<open>seek(seconds)\<close> returns false and leaves the player, its
  queue and its recorded position as they were whenever \<open>seconds\<close> is negative, and
  whenever the track's duration is positive and \<open>seconds\<close> is not below it.
\<close>

theorem seek_rejects_out_of_range:
  "current (pqueue p) = Some t \<Longrightarrow>
   seconds < 0 \<or> (0 < duration t \<and> duration t \<le> seconds) \<Longrightarrow>
   seek tr get_stream_url seconds p = (False, p)"
  by (auto simp: seek_def split: option.splits)

theorem seek_rejects_out_of_range_witness:
  "current (pqueue sim_player) = Some trackB \<and>
   ((- 5 :: int) < 0 \<or> (0 < duration trackB \<and> duration trackB \<le> - 5)) \<and>
   seek sim_transport stream_url (- 5) sim_player = (False, sim_player) \<and>
   ((200 :: int) < 0 \<or> (0 < duration trackB \<and> duration trackB \<le> 200)) \<and>
   seek sim_transport stream_url 200 sim_player = (False, sim_player)"
proof -
  have c: "current (pqueue sim_player) = Some trackB"
    by (simp add: sim_player_def queue3_def current_def)
  have a: "(- 5 :: int) < 0 \<or> (0 < duration trackB \<and> duration trackB \<le> - 5)"
    by simp
  have b: "(200 :: int) < 0 \<or> (0 < duration trackB \<and> duration trackB \<le> 200)"
    by (simp add: trackB_def)
  show ?thesis
    using c a b seek_rejects_out_of_range [OF c a] seek_rejects_out_of_range [OF c b]
    by blast
qed

end
